theory Spec2Isabelle
  imports Complex_Main "HOL-Library.AList" "HOL-Library.Sublist"
begin

section \<open>Data model\<close>

text \<open>
  The development embeds \<^verbatim>\<open>TelegramClient\<close> (utils/telegram.js) and
  \<^verbatim>\<open>TelegramErrorLogger\<close> (index.js). Timestamps are the integers that
  \<^verbatim>\<open>Date.now()\<close> returns (milliseconds); every reading of the clock is a parameter
  of the function that reads it. The numbers of the configuration (the two windows, the
  capacity and the number of attempts) are rationals: the constructor keeps any number that
  is not falsy, negative and fractional ones too. The counts the limiter stores are naturals.
  A JavaScript string is the list of its code units.

  Every method returns, besides its result, the logger it leaves behind and the effects it
  has had on the outside world; a result \<open>Inl e\<close> is a throw (for an \<^verbatim>\<open>async\<close> method, a
  rejection) with the value \<open>e\<close>, and \<open>Inr None\<close> is \<^verbatim>\<open>null\<close>. The two formatters are
  parameters. Left out: the \<^verbatim>\<open>options\<close> argument of \<^verbatim>\<open>sendMessage\<close> (always \<^verbatim>\<open>{}\<close> on
  the paths from \<^verbatim>\<open>sendError\<close> and \<^verbatim>\<open>sendCustomMessage\<close>), the number printed in the last
  log line of \<^verbatim>\<open>sendMessageWithRetry\<close>, and the periodic sweep, which deletes the entries
  that the next call would no longer count.
\<close>

type_synonym timestamp = int

text \<open>
  A value that has been thrown (or that a promise was rejected with). Reading
  \<^verbatim>\<open>.message\<close> from it works for every value except \<^verbatim>\<open>null\<close> and
  \<^verbatim>\<open>undefined\<close>, where the read itself throws a TypeError.
\<close>

datatype thrown = Thrown string | ThrownNullish

definition message_of :: "thrown \<Rightarrow> string option" where
  "message_of e = (case e of Thrown m \<Rightarrow> Some m | ThrownNullish \<Rightarrow> None)"

definition typeError :: thrown where
  "typeError = Thrown ''Cannot read properties of null (reading 'message')''"

text \<open>\<^verbatim>\<open>response.data\<close> of a resolved request; \<^verbatim>\<open>if (result)\<close> tests its truthiness.\<close>

datatype data = Data string | FalsyData

datatype response = Resolved data | Rejected thrown

fun truthy :: "data option \<Rightarrow> bool" where
  "truthy None = False"
| "truthy (Some FalsyData) = False"
| "truthy (Some (Data _)) = True"

text \<open>
  What a call does to the outside world, in order: one HTTP request per \<^verbatim>\<open>axios.post\<close>
  (with the text sent), one timer wait per \<^verbatim>\<open>setTimeout\<close> (milliseconds), and the console
  lines (label, and the logged \<^verbatim>\<open>message\<close>, \<open>None\<close> for \<^verbatim>\<open>undefined\<close>).
\<close>

datatype effect =
    Post string
  | Sleep nat
  | ConsoleWarn string
  | ConsoleError string "string option"

fun is_Post :: "effect \<Rightarrow> bool" where
  "is_Post (Post _) = True"
| "is_Post _ = False"

fun is_Sleep :: "effect \<Rightarrow> bool" where
  "is_Sleep (Sleep _) = True"
| "is_Sleep _ = False"

definition posts :: "effect list \<Rightarrow> nat" where
  "posts tr = length (filter is_Post tr)"

definition sleeps :: "effect list \<Rightarrow> effect list" where
  "sleeps tr = filter is_Sleep tr"

record js_error =
  err_name :: string
  err_message :: string

record error_context =
  ctx_route :: "string option"
  ctx_url :: "string option"

text \<open>The argument of the constructor: every field may be missing.\<close>

record options =
  opt_botToken :: "string option"
  opt_chatId :: "string option"
  opt_errorFilter :: "(js_error \<Rightarrow> error_context \<Rightarrow> thrown + bool) option"
  opt_rateLimitWindow :: "rat option"
  opt_rateLimitMax :: "rat option"
  opt_deduplicate :: "bool option"
  opt_deduplicateWindow :: "rat option"
  opt_retryAttempts :: "rat option"

text \<open>\<^verbatim>\<open>this.config\<close>, the fields the delivery path reads.\<close>

record config =
  errorFilter :: "(js_error \<Rightarrow> error_context \<Rightarrow> thrown + bool) option"
  rateLimitWindow :: rat
  rateLimitMax :: rat
  deduplicate :: bool
  deduplicateWindow :: rat
  retryAttempts :: rat

text \<open>
  \<^verbatim>\<open>this\<close> of a \<^verbatim>\<open>TelegramErrorLogger\<close>. The two \<^verbatim>\<open>Map\<close>s are association lists
  in insertion order with one entry per key.
\<close>

record logger =
  config :: config
  errorCounts :: "(timestamp \<times> nat) list"
  errorHashes :: "(string \<times> timestamp) list"

text \<open>
  The collaborators of a call: the outcome of the \<open>k\<close>-th HTTP request, and the two
  formatters, which return the rendered text or throw.
\<close>

record 'o env =
  net :: "nat \<Rightarrow> response"
  errorFormat :: "js_error \<Rightarrow> error_context \<Rightarrow> thrown + string"
  messageFormat :: "string \<Rightarrow> 'o \<Rightarrow> thrown + string"

section \<open>TelegramClient\<close>

definition maxMessageLength :: nat where
  "maxMessageLength = 4096"

definition truncationNotice :: string where
  "truncationNotice = [CHR 0x0A, CHR 0x0A] @ ''... (message truncated)''"

definition truncateMessage :: "string \<Rightarrow> string" where
  "truncateMessage message =
     (if length message \<le> maxMessageLength then message
      else let maxLength = maxMessageLength - length truncationNotice
           in take maxLength message @ truncationNotice)"

text \<open>
  \<^verbatim>\<open>sendMessage\<close> with \<^verbatim>\<open>options = {}\<close>: truncate, post once, return
  \<^verbatim>\<open>response.data\<close>; a rejection is caught, its message logged, and \<^verbatim>\<open>null\<close> returned.
  The handler reads \<^verbatim>\<open>error.message\<close>, which throws when the rejection value is nullish.
\<close>

definition sendMessage ::
  "(nat \<Rightarrow> response) \<Rightarrow> string \<Rightarrow> effect list \<Rightarrow> (thrown + data option) \<times> effect list" where
  "sendMessage nt message tr =
     (let truncatedMessage = truncateMessage message;
          tr1 = tr @ [Post truncatedMessage]
      in case nt (posts tr) of
           Resolved d \<Rightarrow> (Inr (Some d), tr1)
         | Rejected error \<Rightarrow>
             (case message_of error of
                Some m \<Rightarrow> (Inr None, tr1 @ [ConsoleError ''Failed to send Telegram message:'' (Some m)])
              | None \<Rightarrow> (Inl typeError, tr1)))"

text \<open>
  The loop of \<^verbatim>\<open>sendMessageWithRetry\<close>, over any \<open>send\<close>: \<open>i\<close> is the loop counter and
  \<open>lastError\<close> the variable of that name. The wait sits in the \<^verbatim>\<open>catch\<close> block.
\<close>

function retry_loop ::
  "(effect list \<Rightarrow> (thrown + data option) \<times> effect list) \<Rightarrow> rat \<Rightarrow> nat \<Rightarrow> thrown option
     \<Rightarrow> effect list \<Rightarrow> (thrown + data option) \<times> effect list" where
  "retry_loop send retries i lastError tr =
     (if of_nat i < retries then
        (case send tr of
           (Inr result, tr') \<Rightarrow>
             if truthy result then (Inr result, tr')
             else retry_loop send retries (Suc i) lastError tr'
         | (Inl error, tr') \<Rightarrow>
             retry_loop send retries (Suc i) (Some error)
               (if of_nat i < retries - 1 then tr' @ [Sleep (2 ^ i * 1000)] else tr'))
      else
        (Inr None,
         tr @ [ConsoleError ''Failed to send Telegram message after retries:''
                 (case lastError of None \<Rightarrow> None | Some e \<Rightarrow> message_of e)]))"
  by pat_completeness auto
termination
  by (relation "measure (\<lambda>(send, retries, i, lastError, tr). nat \<lceil>retries\<rceil> - i)")
     (auto simp: zless_nat_eq_int_zless less_ceiling_iff intro!: diff_less_mono2)

declare retry_loop.simps [simp del]

definition sendMessageWithRetry ::
  "(nat \<Rightarrow> response) \<Rightarrow> string \<Rightarrow> rat \<Rightarrow> effect list \<Rightarrow> (thrown + data option) \<times> effect list" where
  "sendMessageWithRetry nt message retries tr =
     retry_loop (sendMessage nt message) retries 0 None tr"

section \<open>TelegramErrorLogger\<close>

definition falsy_string :: "string option \<Rightarrow> bool" where
  "falsy_string s = (s = None \<or> s = Some [])"

text \<open>\<^verbatim>\<open>v || d\<close> for a number: a missing value and 0 are falsy, every other number is kept.\<close>

definition or_number :: "rat option \<Rightarrow> rat \<Rightarrow> rat" where
  "or_number v d = (case v of None \<Rightarrow> d | Some x \<Rightarrow> if x = 0 then d else x)"

definition new_logger :: "options \<Rightarrow> thrown + logger" where
  "new_logger opts =
     (if falsy_string (opt_botToken opts) then Inl (Thrown ''Telegram bot token is required'')
      else if falsy_string (opt_chatId opts) then Inl (Thrown ''Telegram chat ID is required'')
      else Inr \<lparr> config = \<lparr> errorFilter = opt_errorFilter opts,
                            rateLimitWindow = or_number (opt_rateLimitWindow opts) 60000,
                            rateLimitMax = or_number (opt_rateLimitMax opts) 10,
                            deduplicate = (opt_deduplicate opts = Some True),
                            deduplicateWindow = or_number (opt_deduplicateWindow opts) 300000,
                            retryAttempts = or_number (opt_retryAttempts opts) 3 \<rparr>,
                 errorCounts = [],
                 errorHashes = [] \<rparr>)"

definition evict :: "rat \<Rightarrow> (timestamp \<times> 'v) list \<Rightarrow> (timestamp \<times> 'v) list" where
  "evict windowStart m = filter (\<lambda>(ts, _). \<not> of_int ts < windowStart) m"

definition sum_counts :: "(timestamp \<times> nat) list \<Rightarrow> nat" where
  "sum_counts m = sum_list (map snd m)"

definition checkRateLimit :: "timestamp \<Rightarrow> logger \<Rightarrow> bool \<times> logger" where
  "checkRateLimit now L =
     (let windowStart = of_int now - rateLimitWindow (config L);
          kept = evict windowStart (errorCounts L);
          errorCount = sum_counts kept
      in if of_nat errorCount \<ge> rateLimitMax (config L) then (False, L\<lparr>errorCounts := kept\<rparr>)
         else (True,
               L\<lparr>errorCounts :=
                   AList.update now ((case map_of kept now of None \<Rightarrow> 0 | Some c \<Rightarrow> c) + 1) kept\<rparr>))"

definition or_string :: "string option \<Rightarrow> string option \<Rightarrow> string" where
  "or_string a b =
     (if \<not> falsy_string a then the a else if \<not> falsy_string b then the b else [])"

definition getErrorHash :: "js_error \<Rightarrow> error_context \<Rightarrow> string" where
  "getErrorHash error ctx =
     err_name error @ '':'' @ err_message error @ '':'' @ or_string (ctx_route ctx) (ctx_url ctx)"

text \<open>\<^verbatim>\<open>if (!lastSeen) return false\<close>: a missing record and a recorded timestamp 0 are both falsy.\<close>

definition isDuplicate :: "timestamp \<Rightarrow> string \<Rightarrow> logger \<Rightarrow> bool" where
  "isDuplicate now errorHash L =
     (case map_of (errorHashes L) errorHash of
        None \<Rightarrow> False
      | Some lastSeen \<Rightarrow>
          if lastSeen = 0 then False
          else of_int (now - lastSeen) < deduplicateWindow (config L))"

definition recordError :: "timestamp \<Rightarrow> string \<Rightarrow> logger \<Rightarrow> logger" where
  "recordError now errorHash L = L\<lparr>errorHashes := AList.update errorHash now (errorHashes L)\<rparr>"

text \<open>
  The \<^verbatim>\<open>catch\<close> block shared by the three entry points: log \<^verbatim>\<open>err.message\<close> and
  return \<^verbatim>\<open>null\<close>; reading \<^verbatim>\<open>.message\<close> of a nullish value throws out of the handler.
\<close>

definition catch_all ::
  "string \<Rightarrow> (thrown + data option) \<times> logger \<times> effect list
     \<Rightarrow> (thrown + data option) \<times> logger \<times> effect list" where
  "catch_all label r =
     (case r of
        (Inl err, L, tr) \<Rightarrow>
          (case message_of err of
             Some m \<Rightarrow> (Inr None, L, tr @ [ConsoleError label (Some m)])
           | None \<Rightarrow> (Inl typeError, L, tr))
      | (Inr v, L, tr) \<Rightarrow> (Inr v, L, tr))"

text \<open>
  The \<^verbatim>\<open>try\<close> block of \<^verbatim>\<open>sendError\<close>. \<open>t_rate\<close>, \<open>t_dup\<close> and \<open>t_rec\<close> are the clock
  readings of \<^verbatim>\<open>checkRateLimit\<close>, \<^verbatim>\<open>isDuplicate\<close> and \<^verbatim>\<open>recordError\<close>.
\<close>

definition sendError_try ::
  "'o env \<Rightarrow> timestamp \<Rightarrow> timestamp \<Rightarrow> timestamp \<Rightarrow> js_error \<Rightarrow> error_context \<Rightarrow> logger \<Rightarrow> effect list
     \<Rightarrow> (thrown + data option) \<times> logger \<times> effect list" where
  "sendError_try E t_rate t_dup t_rec error ctx L tr =
     (case (case errorFilter (config L) of None \<Rightarrow> Inr True | Some f \<Rightarrow> f error ctx) of
        Inl e \<Rightarrow> (Inl e, L, tr)
      | Inr pass \<Rightarrow>
          if \<not> pass then (Inr None, L, tr)
          else
            (case checkRateLimit t_rate L of
               (ok, L1) \<Rightarrow>
                 if \<not> ok then
                   (Inr None, L1,
                    tr @ [ConsoleWarn ''Telegram error logger: Rate limit exceeded, skipping error''])
                 else if deduplicate (config L1)
                         \<and> isDuplicate t_dup (getErrorHash error ctx) L1 then
                   (Inr None, L1,
                    tr @ [ConsoleWarn ''Telegram error logger: Duplicate error detected, skipping''])
                 else
                   (let L2 = (if deduplicate (config L1)
                              then recordError t_rec (getErrorHash error ctx) L1 else L1)
                    in case errorFormat E error ctx of
                         Inl e \<Rightarrow> (Inl e, L2, tr)
                       | Inr formattedMessage \<Rightarrow>
                           (case sendMessageWithRetry (net E) formattedMessage
                                   (retryAttempts (config L2)) tr of
                              (r, tr') \<Rightarrow> (r, L2, tr')))))"

definition sendError ::
  "'o env \<Rightarrow> timestamp \<Rightarrow> timestamp \<Rightarrow> timestamp \<Rightarrow> js_error \<Rightarrow> error_context \<Rightarrow> logger \<Rightarrow> effect list
     \<Rightarrow> (thrown + data option) \<times> logger \<times> effect list" where
  "sendError E t_rate t_dup t_rec error ctx L tr =
     catch_all ''Failed to send error to Telegram:''
       (sendError_try E t_rate t_dup t_rec error ctx L tr)"

definition sendCustomMessage ::
  "'o env \<Rightarrow> string \<Rightarrow> 'o \<Rightarrow> logger \<Rightarrow> effect list
     \<Rightarrow> (thrown + data option) \<times> logger \<times> effect list" where
  "sendCustomMessage E message opts L tr =
     catch_all ''Failed to send custom message to Telegram:''
       (case messageFormat E message opts of
          Inl e \<Rightarrow> (Inl e, L, tr)
        | Inr formattedMessage \<Rightarrow>
            (case sendMessageWithRetry (net E) formattedMessage (retryAttempts (config L)) tr of
               (r, tr') \<Rightarrow> (r, L, tr')))"

definition sendRawMessage ::
  "'o env \<Rightarrow> string \<Rightarrow> logger \<Rightarrow> effect list \<Rightarrow> (thrown + data option) \<times> logger \<times> effect list" where
  "sendRawMessage E message L tr =
     catch_all ''Failed to send raw message to Telegram:''
       (case sendMessage (net E) message tr of (r, tr') \<Rightarrow> (r, L, tr'))"

section \<open>Scenarios and measures used by the properties\<close>

text \<open>A request counts as failed when it is rejected or resolves with falsy data.\<close>

definition failed :: "response \<Rightarrow> bool" where
  "failed r = (case r of Resolved d \<Rightarrow> \<not> truthy (Some d) | Rejected _ \<Rightarrow> True)"

text \<open>Consecutive calls of \<^verbatim>\<open>checkRateLimit\<close>, one per clock reading, with their answers.\<close>

fun checkRateLimits :: "timestamp list \<Rightarrow> logger \<Rightarrow> bool list \<times> logger" where
  "checkRateLimits [] L = ([], L)"
| "checkRateLimits (now # rest) L =
     (case checkRateLimit now L of
        (ok, L') \<Rightarrow> (case checkRateLimits rest L' of (oks, L'') \<Rightarrow> (ok # oks, L'')))"

text \<open>
  The calls at times \<open>ts\<close> fall within one window of width \<open>W\<close>: no call comes more than
  \<open>W\<close> after an earlier one.
\<close>

fun within_window :: "rat \<Rightarrow> timestamp list \<Rightarrow> bool" where
  "within_window W [] = True"
| "within_window W (t # ts) = (list_all (\<lambda>u. of_int (u - t) \<le> W) ts \<and> within_window W ts)"

text \<open>The admissions recorded in \<open>m\<close> whose age at time \<open>now\<close> is at most \<open>W\<close>.\<close>

definition live_count :: "timestamp \<Rightarrow> rat \<Rightarrow> (timestamp \<times> nat) list \<Rightarrow> nat" where
  "live_count now W m = sum_counts (filter (\<lambda>(ts, _). of_int (now - ts) \<le> W) m)"

text \<open>
  The count as the specification words it (\<^verbatim>\<open>age < W\<close> is counted): the admissions
  recorded in \<open>m\<close> whose age at time \<open>now\<close> is strictly less than \<open>W\<close>.
\<close>

definition spec_strict_count :: "timestamp \<Rightarrow> rat \<Rightarrow> (timestamp \<times> nat) list \<Rightarrow> nat" where
  "spec_strict_count now W m = sum_counts (filter (\<lambda>(ts, _). of_int (now - ts) < W) m)"

text \<open>
  Consecutive calls of \<^verbatim>\<open>sendCustomMessage\<close>; each answer comes with the effects that
  call has had.
\<close>

fun sendCustomMessages ::
  "'o env \<Rightarrow> (string \<times> 'o) list \<Rightarrow> logger \<Rightarrow> effect list
     \<Rightarrow> ((thrown + data option) \<times> effect list) list \<times> logger \<times> effect list" where
  "sendCustomMessages E [] L tr = ([], L, tr)"
| "sendCustomMessages E ((message, opts) # rest) L tr =
     (case sendCustomMessage E message opts L tr of
        (r, L', tr') \<Rightarrow>
          (case sendCustomMessages E rest L' tr' of
             (rs, L'', tr'') \<Rightarrow> ((r, drop (length tr) tr') # rs, L'', tr'')))"

text \<open>
  The configuration the constructor stores when every optional field is missing, and a
  logger as the constructor leaves it: both maps empty.
\<close>

definition default_config :: config where
  "default_config =
     \<lparr> errorFilter = None, rateLimitWindow = 60000, rateLimitMax = 10, deduplicate = False,
       deduplicateWindow = 300000, retryAttempts = 3 \<rparr>"

definition fresh :: "config \<Rightarrow> logger" where
  "fresh c = \<lparr> config = c, errorCounts = [], errorHashes = [] \<rparr>"

text \<open>
  Collaborators for concrete runs: the formatters render the error's message and the custom
  message as they are; the transport is the parameter. An error and its context.
\<close>

definition plain_env :: "(nat \<Rightarrow> response) \<Rightarrow> unit env" where
  "plain_env nt =
     \<lparr> net = nt, errorFormat = (\<lambda>error ctx. Inr (err_message error)),
       messageFormat = (\<lambda>message opts. Inr message) \<rparr>"

definition boom :: js_error where
  "boom = \<lparr> err_name = ''Error'', err_message = ''boom'' \<rparr>"

definition at_test :: error_context where
  "at_test = \<lparr> ctx_route = Some ''/test'', ctx_url = None \<rparr>"

section \<open>Transport: message truncation\<close>

text \<open>
  C8. A message of at most 4096 code units is sent unchanged. A longer one becomes its first
  4071 code units followed by the truncation marker, two line feeds and the words
  \<^verbatim>\<open>... (message truncated)\<close>, which makes exactly 4096 code units.
\<close>

theorem truncateMessage_limit:
  "maxMessageLength = 4096
   \<and> truncationNotice = [CHR 0x0A, CHR 0x0A] @ ''... (message truncated)''
   \<and> (length message \<le> 4096 \<longrightarrow> truncateMessage message = message)
   \<and> (4096 < length message \<longrightarrow>
        truncateMessage message
          = take 4071 message @ [CHR 0x0A, CHR 0x0A] @ ''... (message truncated)''
        \<and> length (truncateMessage message) = 4096)"
  by (simp add: truncateMessage_def maxMessageLength_def truncationNotice_def)

theorem truncateMessage_limit_witness:
  "truncateMessage ''short'' = ''short''
   \<and> truncateMessage (replicate 5000 (CHR ''x''))
       = replicate 4071 (CHR ''x'') @ [CHR 0x0A, CHR 0x0A] @ ''... (message truncated)''
   \<and> length (truncateMessage (replicate 5000 (CHR ''x''))) = 4096"
proof -
  have short: "length ''short'' \<le> 4096"
    by simp
  have long: "4096 < length (replicate 5000 (CHR ''x''))"
    by simp
  have cut: "take 4071 (replicate 5000 (CHR ''x'')) = replicate 4071 (CHR ''x'')"
    by (simp only: take_replicate) simp
  from short truncateMessage_limit [of "''short''"]
  have a: "truncateMessage ''short'' = ''short''" by blast
  from long truncateMessage_limit [of "replicate 5000 (CHR ''x'')"]
  have b: "truncateMessage (replicate 5000 (CHR ''x''))
       = take 4071 (replicate 5000 (CHR ''x'')) @ [CHR 0x0A, CHR 0x0A] @ ''... (message truncated)''"
    and c: "length (truncateMessage (replicate 5000 (CHR ''x''))) = 4096"
    by blast+
  from a b c show ?thesis unfolding cut by blast
qed

section \<open>Rate limiter\<close>

lemma evict_live: "evict (of_int now - W) m = filter (\<lambda>(ts, _). of_int (now - ts) \<le> W) m"
  unfolding evict_def by (rule filter_cong) auto

lemma sum_counts_evict: "sum_counts (evict (of_int now - W) m) = live_count now W m"
  by (simp add: evict_live live_count_def)

lemma sum_counts_update:
  "sum_counts (AList.update k (Suc (case map_of m k of None \<Rightarrow> 0 | Some c \<Rightarrow> c)) m)
     = Suc (sum_counts m)"
  by (induction m) (auto simp: sum_counts_def)

lemma checkRateLimit_answer:
  "fst (checkRateLimit now L)
     = (of_nat (live_count now (rateLimitWindow (config L)) (errorCounts L))
          < rateLimitMax (config L))"
  by (auto simp: checkRateLimit_def Let_def sum_counts_evict)

lemma checkRateLimit_rejected:
  "\<not> fst (checkRateLimit now L) \<Longrightarrow>
   snd (checkRateLimit now L)
     = L\<lparr>errorCounts := filter (\<lambda>(ts, _). of_int (now - ts) \<le> rateLimitWindow (config L)) (errorCounts L)\<rparr>"
  by (auto simp: checkRateLimit_def Let_def evict_live split: if_splits)

lemma checkRateLimit_admitted:
  "fst (checkRateLimit now L) \<Longrightarrow>
   sum_counts (errorCounts (snd (checkRateLimit now L)))
     = live_count now (rateLimitWindow (config L)) (errorCounts L) + 1
   \<and> map_of (errorCounts (snd (checkRateLimit now L))) now
     = Some ((case map_of (filter (\<lambda>(ts, _). of_int (now - ts) \<le> rateLimitWindow (config L)) (errorCounts L)) now
              of None \<Rightarrow> 0 | Some c \<Rightarrow> c) + 1)"
  by (auto simp: checkRateLimit_def Let_def sum_counts_update evict_live live_count_def
                 AList.update_conv' split: if_splits)

lemma checkRateLimit_frame:
  "config (snd (checkRateLimit now L)) = config L
   \<and> errorHashes (snd (checkRateLimit now L)) = errorHashes L"
  by (simp add: checkRateLimit_def Let_def)

lemma evict_all_live:
  "\<forall>t \<in> fst ` set m. of_int (now - t) \<le> W \<Longrightarrow> evict (of_int now - W) m = m"
  unfolding evict_def by (induction m) auto

lemma map_upt_Suc': "map f [0..<Suc n] = f 0 # map (\<lambda>k. f (Suc k)) [0..<n]"
  by (simp add: map_upt_Suc del: upt_Suc)

lemma checkRateLimits_run:
  "within_window (rateLimitWindow (config L)) ts \<Longrightarrow>
   \<forall>t \<in> fst ` set (errorCounts L). \<forall>u \<in> set ts. of_int (u - t) \<le> rateLimitWindow (config L) \<Longrightarrow>
   fst (checkRateLimits ts L)
     = map (\<lambda>k. of_nat (sum_counts (errorCounts L) + k) < rateLimitMax (config L)) [0..<length ts]"
proof (induction ts arbitrary: L)
  case Nil
  then show ?case by simp
next
  case (Cons now rest)
  let ?W = "rateLimitWindow (config L)"
  let ?C = "rateLimitMax (config L)"
  let ?m = "errorCounts L"
  have keep: "evict (of_int now - ?W) ?m = ?m"
    using Cons.prems(2) by (intro evict_all_live) auto
  have win: "within_window ?W rest" and fresh: "\<forall>u \<in> set rest. of_int (u - now) \<le> ?W"
    using Cons.prems(1) by (auto simp: list_all_iff)
  show ?case
  proof (cases "?C \<le> of_nat (sum_counts ?m)")
    case True
    then have step: "checkRateLimit now L = (False, L)"
      by (simp add: checkRateLimit_def Let_def keep)
    have "fst (checkRateLimits rest L)
            = map (\<lambda>k. of_nat (sum_counts ?m + k) < ?C) [0..<length rest]"
      using Cons.IH[of L] win Cons.prems(2) by auto
    also have "\<dots> = map (\<lambda>k. of_nat (sum_counts ?m + Suc k) < ?C) [0..<length rest]"
      using True by auto
    finally show ?thesis
      using True by (cases "checkRateLimits rest L") (simp add: step map_upt_Suc' del: upt_Suc)
  next
    case False
    define L' where "L' = L\<lparr>errorCounts :=
        AList.update now ((case map_of ?m now of None \<Rightarrow> 0 | Some c \<Rightarrow> c) + 1) ?m\<rparr>"
    have step: "checkRateLimit now L = (True, L')"
      using False by (simp add: checkRateLimit_def Let_def keep L'_def)
    have cfg: "config L' = config L" by (simp add: L'_def)
    have tot: "sum_counts (errorCounts L') = sum_counts ?m + 1"
      by (simp add: L'_def sum_counts_update)
    have keys: "fst ` set (errorCounts L') = insert now (fst ` set ?m)"
      by (simp add: L'_def AList.dom_update)
    have inv: "\<forall>t \<in> fst ` set (errorCounts L').
        \<forall>u \<in> set rest. of_int (u - t) \<le> rateLimitWindow (config L')"
      unfolding keys cfg using fresh Cons.prems(2) by auto
    have "fst (checkRateLimits rest L')
            = map (\<lambda>k. of_nat (sum_counts ?m + Suc k) < ?C) [0..<length rest]"
      using Cons.IH[of L'] win inv by (simp add: cfg tot)
    then show ?thesis
      using False
      by (cases "checkRateLimits rest L'") (simp add: step map_upt_Suc' ac_simps del: upt_Suc)
  qed
qed

lemma update_other_keys:
  "filter (\<lambda>(ts, _). ts \<noteq> k) (AList.update k v m) = filter (\<lambda>(ts, _). ts \<noteq> k) m"
  by (induction m) auto

lemma checkRateLimit_others:
  "fst (checkRateLimit now L) \<Longrightarrow>
   filter (\<lambda>(ts, _). ts \<noteq> now) (errorCounts (snd (checkRateLimit now L)))
     = filter (\<lambda>(ts, _). ts \<noteq> now \<and> of_int (now - ts) \<le> rateLimitWindow (config L)) (errorCounts L)"
proof -
  have "filter (\<lambda>(ts, _). ts \<noteq> now)
          (filter (\<lambda>(ts, _). of_int (now - ts) \<le> rateLimitWindow (config L)) (errorCounts L))
        = filter (\<lambda>(ts, _). ts \<noteq> now \<and> of_int (now - ts) \<le> rateLimitWindow (config L)) (errorCounts L)"
    by (simp add: case_prod_unfold conj_commute)
  then show ?thesis if "fst (checkRateLimit now L)"
    using that
    by (auto simp: checkRateLimit_def Let_def evict_live update_other_keys split: if_splits)
qed

text \<open>
  C1, as the code has it. A call at time \<open>now\<close> counts the recorded admissions whose age is
  at most the window \<open>W\<close> (an entry is evicted only when its age strictly exceeds \<open>W\<close>, so
  an entry aged exactly \<open>W\<close> still counts). If that count has reached the capacity \<open>C\<close> the
  call answers false and only the eviction has happened; otherwise it answers true and the
  admission is recorded under \<open>now\<close>. Hence, on a fresh limiter, of any calls that fall
  within one window the first \<open>C\<close> are admitted and every later one is rejected.
\<close>

theorem checkRateLimit_sliding_window:
  "fst (checkRateLimit now L)
     = (of_nat (live_count now (rateLimitWindow (config L)) (errorCounts L))
          < rateLimitMax (config L))
   \<and> (\<not> fst (checkRateLimit now L) \<longrightarrow>
        snd (checkRateLimit now L)
          = L\<lparr>errorCounts :=
                filter (\<lambda>(ts, _). of_int (now - ts) \<le> rateLimitWindow (config L)) (errorCounts L)\<rparr>)
   \<and> (fst (checkRateLimit now L) \<longrightarrow>
        sum_counts (errorCounts (snd (checkRateLimit now L)))
          = live_count now (rateLimitWindow (config L)) (errorCounts L) + 1
        \<and> map_of (errorCounts (snd (checkRateLimit now L))) now
          = Some ((case map_of (filter (\<lambda>(ts, _). of_int (now - ts) \<le> rateLimitWindow (config L))
                                  (errorCounts L)) now
                   of None \<Rightarrow> 0 | Some c \<Rightarrow> c) + 1)
        \<and> filter (\<lambda>(ts, _). ts \<noteq> now) (errorCounts (snd (checkRateLimit now L)))
          = filter (\<lambda>(ts, _). ts \<noteq> now \<and> of_int (now - ts) \<le> rateLimitWindow (config L))
              (errorCounts L))
   \<and> config (snd (checkRateLimit now L)) = config L
   \<and> errorHashes (snd (checkRateLimit now L)) = errorHashes L
   \<and> (errorCounts L = [] \<and> within_window (rateLimitWindow (config L)) ts \<longrightarrow>
        fst (checkRateLimits ts L) = map (\<lambda>k. of_nat k < rateLimitMax (config L)) [0..<length ts])"
proof -
  have seq: "fst (checkRateLimits ts L) = map (\<lambda>k. of_nat k < rateLimitMax (config L)) [0..<length ts]"
    if "errorCounts L = []" "within_window (rateLimitWindow (config L)) ts"
    using checkRateLimits_run[of L ts] that by (simp add: sum_counts_def)
  show ?thesis
    using checkRateLimit_answer[of now L] checkRateLimit_rejected[of now L]
          checkRateLimit_admitted[of now L] checkRateLimit_others[of now L]
          checkRateLimit_frame[of now L] seq
    by simp
qed

theorem checkRateLimit_sliding_window_witness:
  "fst (checkRateLimit 0 (fresh (default_config\<lparr>rateLimitWindow := 1000, rateLimitMax := 2\<rparr>)))
   \<and> errorCounts (snd (checkRateLimit 0
         (fresh (default_config\<lparr>rateLimitWindow := 1000, rateLimitMax := 2\<rparr>)))) = [(0, 1)]
   \<and> within_window 1000 [0, 400, 1000]
   \<and> fst (checkRateLimits [0, 400, 1000]
         (fresh (default_config\<lparr>rateLimitWindow := 1000, rateLimitMax := 2\<rparr>)))
       = [True, True, False]
   \<and> \<not> fst (checkRateLimit 1000
         ((fresh (default_config\<lparr>rateLimitWindow := 1000, rateLimitMax := 2\<rparr>))
            \<lparr>errorCounts := [(0, 2), (-1, 5)]\<rparr>))
   \<and> errorCounts (snd (checkRateLimit 1000
         ((fresh (default_config\<lparr>rateLimitWindow := 1000, rateLimitMax := 2\<rparr>))
            \<lparr>errorCounts := [(0, 2), (-1, 5)]\<rparr>))) = [(0, 2)]"
  using checkRateLimit_sliding_window
          [of 0 "fresh (default_config\<lparr>rateLimitWindow := 1000, rateLimitMax := 2\<rparr>)"
              "[0, 400, 1000]"]
        checkRateLimit_sliding_window
          [of 1000 "(fresh (default_config\<lparr>rateLimitWindow := 1000, rateLimitMax := 2\<rparr>))
                      \<lparr>errorCounts := [(0, 2), (-1, 5)]\<rparr>" "[]"]
  by (simp add: fresh_def default_config_def live_count_def sum_counts_def upt_conv_Cons
                checkRateLimit_def evict_def Let_def)

text \<open>
  The boundary as the specification words it (counted exactly when the age is strictly less than
  \<open>W\<close>) fails: with \<open>W = 1000\<close> and \<open>C = 1\<close>, after an admission at time 0 the
  call at time 1000 is rejected, although no recorded entry is younger than \<open>W\<close>.
\<close>

theorem checkRateLimit_boundary_counterexample:
  "fst (checkRateLimit 0 (fresh (default_config\<lparr>rateLimitWindow := 1000, rateLimitMax := 1\<rparr>)))
   \<and> errorCounts (snd (checkRateLimit 0
         (fresh (default_config\<lparr>rateLimitWindow := 1000, rateLimitMax := 1\<rparr>)))) = [(0, 1)]
   \<and> spec_strict_count 1000 1000 [(0, 1)] = 0
   \<and> \<not> fst (checkRateLimit 1000 (snd (checkRateLimit 0
         (fresh (default_config\<lparr>rateLimitWindow := 1000, rateLimitMax := 1\<rparr>)))))"
  by (simp add: checkRateLimit_def fresh_def default_config_def evict_def sum_counts_def
                spec_strict_count_def Let_def)

section \<open>Retry driver\<close>

lemma posts_append [simp]: "posts (xs @ ys) = posts xs + posts ys"
  by (simp add: posts_def)

lemma posts_Nil [simp]: "posts [] = 0"
  by (simp add: posts_def)

lemma posts_Cons [simp]: "posts (e # tr) = (if is_Post e then Suc (posts tr) else posts tr)"
  by (simp add: posts_def)

lemma attempts_left: "(of_nat i < (retries :: rat)) = (i < nat \<lceil>retries\<rceil>)"
  by (simp add: zless_nat_eq_int_zless less_ceiling_iff)

lemma sendMessage_posts: "posts (snd (sendMessage nt message tr)) = Suc (posts tr)"
  by (simp add: sendMessage_def Let_def split: response.splits option.splits)

lemma sendMessage_failed:
  "failed (nt (posts tr)) \<Longrightarrow> \<not> (\<exists>v. fst (sendMessage nt message tr) = Inr v \<and> truthy v)"
  by (auto simp: sendMessage_def Let_def failed_def split: response.splits option.splits)

lemma retry_loop_never_throws:
  "\<exists>v. fst (retry_loop send retries i lastError tr) = Inr v"
proof (induction send retries i lastError tr rule: retry_loop.induct)
  case (1 send retries i lastError tr)
  show ?case
  proof (cases "of_nat i < retries")
    case False
    then show ?thesis by (subst retry_loop.simps) simp
  next
    case True
    obtain r tr' where s: "send tr = (r, tr')" by (cases "send tr")
    show ?thesis
    proof (cases r)
      case (Inl e)
      with True s "1.IH"(1)[OF True s[symmetric] Inl] show ?thesis
        by (subst retry_loop.simps) simp
    next
      case (Inr v)
      with True s "1.IH"(2)[OF True s[symmetric] Inr] show ?thesis
        by (subst retry_loop.simps) (cases "truthy v"; simp)
    qed
  qed
qed

lemma retry_loop_all_failed:
  "\<forall>k. failed (nt k) \<Longrightarrow>
   fst (retry_loop (sendMessage nt message) retries i lastError tr) = Inr None
   \<and> posts (snd (retry_loop (sendMessage nt message) retries i lastError tr)) = posts tr + (nat \<lceil>retries\<rceil> - i)"
proof (induction "sendMessage nt message" retries i lastError tr rule: retry_loop.induct)
  case (1 retries i lastError tr)
  show ?case
  proof (cases "of_nat i < retries")
    case False
    then have "\<not> i < nat \<lceil>retries\<rceil>" by (simp add: attempts_left)
    with False show ?thesis by (subst (1 2) retry_loop.simps) simp
  next
    case True
    obtain r tr' where s: "sendMessage nt message tr = (r, tr')" by (cases "sendMessage nt message tr")
    have p: "posts tr' = Suc (posts tr)" using sendMessage_posts[of nt message tr] s by simp
    have left: "i < nat \<lceil>retries\<rceil>" using True by (simp add: attempts_left)
    show ?thesis
    proof (cases r)
      case (Inl e)
      with True left s p "1.hyps"(1)[OF True s[symmetric] Inl "1.prems"] show ?thesis
        by (subst (1 2) retry_loop.simps) auto
    next
      case (Inr v)
      have nv: "\<not> truthy v" using sendMessage_failed[of nt tr message] "1.prems" s Inr by auto
      with Inr True left s p "1.hyps"(2)[OF True s[symmetric] Inr nv "1.prems"] show ?thesis
        by (subst (1 2) retry_loop.simps) auto
    qed
  qed
qed

lemma sleeps_append [simp]: "sleeps (xs @ ys) = sleeps xs @ sleeps ys"
  by (simp add: sleeps_def)

lemma sleeps_Nil [simp]: "sleeps [] = []"
  by (simp add: sleeps_def)

lemma sleeps_Cons [simp]: "sleeps (e # tr) = (if is_Sleep e then e # sleeps tr else sleeps tr)"
  by (simp add: sleeps_def)

lemma sendMessage_sleeps: "sleeps (snd (sendMessage nt message tr)) = sleeps tr"
  by (simp add: sendMessage_def Let_def split: response.splits option.splits)

lemma sendMessage_never_throws:
  "nt (posts tr) \<noteq> Rejected ThrownNullish \<Longrightarrow> \<exists>v. fst (sendMessage nt message tr) = Inr v"
  by (auto simp: sendMessage_def Let_def message_of_def split: response.splits thrown.splits)

lemma retry_loop_posts_mono:
  "posts tr \<le> posts (snd (retry_loop (sendMessage nt message) retries i lastError tr))"
proof (induction "sendMessage nt message" retries i lastError tr rule: retry_loop.induct)
  case (1 retries i lastError tr)
  show ?case
  proof (cases "of_nat i < retries")
    case False
    then show ?thesis by (subst retry_loop.simps) simp
  next
    case True
    obtain r tr' where s: "sendMessage nt message tr = (r, tr')"
      by (cases "sendMessage nt message tr")
    have p: "posts tr' = Suc (posts tr)"
      using sendMessage_posts[of nt message tr] s by simp
    show ?thesis
    proof (cases r)
      case (Inl e)
      with True s p "1.hyps"(1)[OF True s[symmetric] Inl] show ?thesis
        by (subst retry_loop.simps) (auto split: if_splits)
    next
      case (Inr v)
      with True s p "1.hyps"(2)[OF True s[symmetric] Inr] show ?thesis
        by (subst retry_loop.simps) (cases "truthy v"; simp)
    qed
  qed
qed

lemma retry_loop_posts:
  assumes "of_nat i < retries"
  shows "posts tr < posts (snd (retry_loop (sendMessage nt message) retries i lastError tr))"
proof -
  obtain r tr' where s: "sendMessage nt message tr = (r, tr')"
    by (cases "sendMessage nt message tr")
  have p: "posts tr' = Suc (posts tr)"
    using sendMessage_posts[of nt message tr] s by simp
  show ?thesis
  proof (cases r)
    case (Inl e)
    with assms s p
      retry_loop_posts_mono[of "tr' @ [Sleep (2 ^ i * 1000)]" nt message retries "Suc i" "Some e"]
      retry_loop_posts_mono[of tr' nt message retries "Suc i" "Some e"]
    show ?thesis
      by (subst retry_loop.simps) (auto split: if_splits)
  next
    case (Inr v)
    with assms s p retry_loop_posts_mono[of tr' nt message retries "Suc i" lastError]
    show ?thesis
      by (subst retry_loop.simps) (cases "truthy v"; simp)
  qed
qed

lemma retry_loop_never_waits:
  "\<forall>k. nt k \<noteq> Rejected ThrownNullish \<Longrightarrow>
   sleeps (snd (retry_loop (sendMessage nt message) retries i lastError tr)) = sleeps tr"
proof (induction "sendMessage nt message" retries i lastError tr rule: retry_loop.induct)
  case (1 retries i lastError tr)
  show ?case
  proof (cases "of_nat i < retries")
    case False
    then show ?thesis by (subst retry_loop.simps) simp
  next
    case True
    obtain r tr' where s: "sendMessage nt message tr = (r, tr')"
      by (cases "sendMessage nt message tr")
    have sl: "sleeps tr' = sleeps tr"
      using sendMessage_sleeps[of nt message tr] s by simp
    obtain v where v: "r = Inr v"
      using sendMessage_never_throws[of nt tr message] "1.prems" s by auto
    show ?thesis
    proof (cases "truthy v")
      case True
      with \<open>of_nat i < retries\<close> s v sl show ?thesis by (subst retry_loop.simps) simp
    next
      case False
      with \<open>of_nat i < retries\<close> s v sl "1.hyps"(2)[OF \<open>of_nat i < retries\<close> s[symmetric] v False "1.prems"]
      show ?thesis by (subst retry_loop.simps) simp
    qed
  qed
qed

lemma sendMessageWithRetry_never_throws:
  "\<exists>v. fst (sendMessageWithRetry nt message retries tr) = Inr v"
  using retry_loop_never_throws by (simp add: sendMessageWithRetry_def)

lemma sendMessageWithRetry_never_waits:
  "\<forall>k. nt k \<noteq> Rejected ThrownNullish \<Longrightarrow>
   sleeps (snd (sendMessageWithRetry nt message retries tr)) = sleeps tr"
  using retry_loop_never_waits by (simp add: sendMessageWithRetry_def)

text \<open>
  C5, as the code has it. When every request fails (is rejected, or resolves with falsy
  data), \<^verbatim>\<open>sendMessageWithRetry\<close> makes exactly \<open>n\<close> requests when called with the
  whole number \<open>n\<close> of attempts (in general as many as the loop counter stays below
  \<open>retries\<close>: \<open>retries\<close> rounded up, none when it is negative) and then returns
  \<^verbatim>\<open>null\<close>; it does not throw. The value returned is \<^verbatim>\<open>null\<close> whatever the cause
  was.
\<close>

theorem sendMessageWithRetry_exhausted:
  "\<forall>k. failed (nt k) \<Longrightarrow>
   fst (sendMessageWithRetry nt message retries tr) = Inr None
   \<and> posts (snd (sendMessageWithRetry nt message retries tr)) = posts tr + nat \<lceil>retries\<rceil>
   \<and> fst (sendMessageWithRetry nt message (of_nat n) tr) = Inr None
   \<and> posts (snd (sendMessageWithRetry nt message (of_nat n) tr)) = posts tr + n"
  using retry_loop_all_failed[of nt message retries 0 None tr]
        retry_loop_all_failed[of nt message "of_nat n" 0 None tr]
  by (simp add: sendMessageWithRetry_def)

theorem sendMessageWithRetry_exhausted_witness:
  "fst (sendMessageWithRetry (\<lambda>k. Rejected (Thrown ''Network error'')) ''hello'' 3 []) = Inr None
   \<and> posts (snd (sendMessageWithRetry (\<lambda>k. Rejected (Thrown ''Network error'')) ''hello'' 3 []))
       = 3"
  using sendMessageWithRetry_exhausted
          [of "\<lambda>k. Rejected (Thrown ''Network error'')" "''hello''" 3 "[]" 3]
  by (simp add: failed_def)

text \<open>
  The result does not carry the last observed cause: two transports that fail for different
  reasons give the same \<^verbatim>\<open>null\<close>, and the closing log line has no cause either, since
  \<^verbatim>\<open>lastError\<close> is only assigned when \<^verbatim>\<open>sendMessage\<close> throws.
\<close>

theorem sendMessageWithRetry_cause_counterexample:
  "fst (sendMessageWithRetry (\<lambda>k. Rejected (Thrown ''timeout'')) ''hello'' 3 []) = Inr None
   \<and> fst (sendMessageWithRetry (\<lambda>k. Rejected (Thrown ''refused'')) ''hello'' 3 []) = Inr None
   \<and> last (snd (sendMessageWithRetry (\<lambda>k. Rejected (Thrown ''timeout'')) ''hello'' 3 []))
       = ConsoleError ''Failed to send Telegram message after retries:'' None"
  by code_simp

text \<open>
  C2. With three attempts and a transport that fails twice and then succeeds, the transport
  is invoked three times and the success result is returned, but nothing waits between the
  attempts: \<^verbatim>\<open>sendMessage\<close> reports a failed request by returning \<^verbatim>\<open>null\<close>, and the
  backoff of \<^verbatim>\<open>sendMessageWithRetry\<close> sits in its \<^verbatim>\<open>catch\<close> block.
\<close>

theorem sendMessageWithRetry_no_backoff:
  "sendMessageWithRetry
      (\<lambda>k. if k < 2 then Rejected (Thrown ''Network error'') else Resolved (Data ''ok''))
      ''hello'' 3 []
   = (Inr (Some (Data ''ok'')),
      [Post ''hello'', ConsoleError ''Failed to send Telegram message:'' (Some ''Network error''),
       Post ''hello'', ConsoleError ''Failed to send Telegram message:'' (Some ''Network error''),
       Post ''hello''])"
  by code_simp

text \<open>
  The loop itself waits \<open>2 ^ i\<close> seconds after attempt \<open>i\<close> when \<open>send\<close> throws and another
  attempt remains.
\<close>

lemma retry_loop_backoff_when_send_throws:
  "retry_loop (\<lambda>tr. (if posts tr < 2 then Inl (Thrown ''boom'') else Inr (Some (Data ''ok'')),
                      tr @ [Post ''hello'']))
      3 0 None []
   = (Inr (Some (Data ''ok'')),
      [Post ''hello'', Sleep 1000, Post ''hello'', Sleep 2000, Post ''hello''])"
  by code_simp

section \<open>Logger: the error filter\<close>

lemma catch_all_Inr [simp]: "catch_all label (Inr v, L, tr) = (Inr v, L, tr)"
  by (simp add: catch_all_def)

lemma catch_all_Thrown [simp]:
  "catch_all label (Inl (Thrown m), L, tr) = (Inr None, L, tr @ [ConsoleError label (Some m)])"
  by (simp add: catch_all_def message_of_def)

lemma catch_all_Nullish [simp]:
  "catch_all label (Inl ThrownNullish, L, tr) = (Inl typeError, L, tr)"
  by (simp add: catch_all_def message_of_def)

lemma catch_all_logger [simp]: "fst (snd (catch_all label r)) = fst (snd r)"
  by (cases r) (auto simp: catch_all_def split: sum.splits option.splits)

lemma catch_all_posts [simp]: "posts (snd (snd (catch_all label r))) = posts (snd (snd r))"
  by (cases r) (auto simp: catch_all_def split: sum.splits option.splits)

text \<open>
  C6. When the configured \<^verbatim>\<open>errorFilter\<close> returns false for an event, \<^verbatim>\<open>sendError\<close>
  returns \<^verbatim>\<open>null\<close>, and the logger and the outside world are as before: no admission is
  counted and no hash recorded, so the rate limiter and the deduplicator answer a later call
  as they would have answered it before.
\<close>

theorem sendError_filtered_out:
  "errorFilter (config L) = Some f \<Longrightarrow> f error ctx = Inr False \<Longrightarrow>
   sendError E t_rate t_dup t_rec error ctx L tr = (Inr None, L, tr)
   \<and> checkRateLimit now (fst (snd (sendError E t_rate t_dup t_rec error ctx L tr)))
       = checkRateLimit now L
   \<and> isDuplicate now h (fst (snd (sendError E t_rate t_dup t_rec error ctx L tr)))
       = isDuplicate now h L"
  by (simp add: sendError_def sendError_try_def)

theorem sendError_filtered_out_witness:
  "sendError (plain_env (\<lambda>k. Resolved (Data ''ok''))) 7 7 7 boom at_test
      (fresh (default_config\<lparr>errorFilter := Some (\<lambda>error ctx. Inr False), rateLimitMax := 1\<rparr>)) []
   = (Inr None,
      fresh (default_config\<lparr>errorFilter := Some (\<lambda>error ctx. Inr False), rateLimitMax := 1\<rparr>),
      [])
   \<and> fst (checkRateLimit 8
         (fst (snd (sendError (plain_env (\<lambda>k. Resolved (Data ''ok''))) 7 7 7 boom at_test
            (fresh (default_config\<lparr>errorFilter := Some (\<lambda>error ctx. Inr False),
                                     rateLimitMax := 1\<rparr>)) []))))"
  using sendError_filtered_out
          [of "fresh (default_config\<lparr>errorFilter := Some (\<lambda>error ctx. Inr False),
                                     rateLimitMax := 1\<rparr>)"
              "\<lambda>error ctx. Inr False" boom at_test
              "plain_env (\<lambda>k. Resolved (Data ''ok''))" 7 7 7 "[]" 8 "''x''"]
  by (simp add: fresh_def default_config_def checkRateLimit_def evict_def sum_counts_def Let_def)

text \<open>
  C3, as the code has it. When the configured \<^verbatim>\<open>errorFilter\<close> throws an error, the
  \<^verbatim>\<open>catch\<close> block of \<^verbatim>\<open>sendError\<close> logs its message and returns \<^verbatim>\<open>null\<close>: the event is
  dropped, nothing is sent, and neither the rate limiter nor the deduplicator is touched.
\<close>

theorem sendError_filter_throws:
  "errorFilter (config L) = Some f \<Longrightarrow> f error ctx = Inl (Thrown m) \<Longrightarrow>
   sendError E t_rate t_dup t_rec error ctx L tr
     = (Inr None, L, tr @ [ConsoleError ''Failed to send error to Telegram:'' (Some m)])"
  by (simp add: sendError_def sendError_try_def)

theorem sendError_filter_throws_witness:
  "sendError (plain_env (\<lambda>k. Resolved (Data ''ok''))) 7 7 7 boom at_test
      (fresh (default_config\<lparr>errorFilter := Some (\<lambda>error ctx. Inl (Thrown ''filter failed''))\<rparr>)) []
   = (Inr None,
      fresh (default_config\<lparr>errorFilter := Some (\<lambda>error ctx. Inl (Thrown ''filter failed''))\<rparr>),
      [ConsoleError ''Failed to send error to Telegram:'' (Some ''filter failed'')])"
  using sendError_filter_throws
          [of "fresh (default_config\<lparr>errorFilter :=
                        Some (\<lambda>error ctx. Inl (Thrown ''filter failed''))\<rparr>)"
              "\<lambda>error ctx. Inl (Thrown ''filter failed'')" boom at_test "''filter failed''"
              "plain_env (\<lambda>k. Resolved (Data ''ok''))" 7 7 7 "[]"]
  by (simp add: fresh_def default_config_def)

text \<open>
  A throwing filter is not treated as a passing one: the same event on the same logger is
  delivered when the filter returns true and dropped when it throws.
\<close>

theorem sendError_filter_throws_counterexample:
  "fst (sendError (plain_env (\<lambda>k. Resolved (Data ''ok''))) 7 7 7 boom at_test
          (fresh (default_config\<lparr>errorFilter := Some (\<lambda>error ctx. Inl (Thrown ''filter failed''))\<rparr>))
          []) = Inr None
   \<and> posts (snd (snd (sendError (plain_env (\<lambda>k. Resolved (Data ''ok''))) 7 7 7 boom at_test
          (fresh (default_config\<lparr>errorFilter := Some (\<lambda>error ctx. Inl (Thrown ''filter failed''))\<rparr>))
          []))) = 0
   \<and> fst (sendError (plain_env (\<lambda>k. Resolved (Data ''ok''))) 7 7 7 boom at_test
          (fresh (default_config\<lparr>errorFilter := Some (\<lambda>error ctx. Inr True)\<rparr>))
          []) = Inr (Some (Data ''ok''))
   \<and> posts (snd (snd (sendError (plain_env (\<lambda>k. Resolved (Data ''ok''))) 7 7 7 boom at_test
          (fresh (default_config\<lparr>errorFilter := Some (\<lambda>error ctx. Inr True)\<rparr>))
          []))) = 1"
  by code_simp

section \<open>Logger: what the entry points resolve to\<close>

lemma catch_all_resolves:
  "fst r \<noteq> Inl ThrownNullish \<Longrightarrow> \<exists>v. fst (catch_all label r) = Inr v"
  by (cases r; cases "fst r") (auto simp: catch_all_def message_of_def split: thrown.splits)

lemma sendMessage_throws_only_typeError:
  "fst (sendMessage nt message tr) \<noteq> Inl ThrownNullish"
  by (auto simp: sendMessage_def Let_def typeError_def split: response.splits option.splits)

lemma sendMessage_result:
  "sendMessage nt message tr = (r, tr') \<Longrightarrow> r \<noteq> Inl ThrownNullish"
  using sendMessage_throws_only_typeError[of nt message tr] by simp

lemma sendMessageWithRetry_result:
  "sendMessageWithRetry nt message retries tr = (r, tr') \<Longrightarrow> r \<noteq> Inl ThrownNullish"
  using sendMessageWithRetry_never_throws[of nt message retries tr] by auto

lemma sendRawMessage_resolves: "\<exists>v. fst (sendRawMessage E message L tr) = Inr v"
  unfolding sendRawMessage_def
  by (rule catch_all_resolves) (auto split: prod.splits dest: sendMessage_result)

lemma sendCustomMessage_resolves:
  "messageFormat E message opts \<noteq> Inl ThrownNullish \<Longrightarrow>
   \<exists>v. fst (sendCustomMessage E message opts L tr) = Inr v"
  unfolding sendCustomMessage_def
  by (rule catch_all_resolves)
     (auto split: sum.splits prod.splits dest: sendMessageWithRetry_result)

lemma sendError_resolves:
  "(\<forall>f. errorFilter (config L) = Some f \<longrightarrow> f error ctx \<noteq> Inl ThrownNullish) \<Longrightarrow>
   errorFormat E error ctx \<noteq> Inl ThrownNullish \<Longrightarrow>
   \<exists>v. fst (sendError E t_rate t_dup t_rec error ctx L tr) = Inr v"
  unfolding sendError_def sendError_try_def
  by (rule catch_all_resolves)
     (auto simp: Let_def split: sum.splits prod.splits option.splits
           dest: sendMessageWithRetry_result)

lemma new_logger_throws:
  "(\<exists>e. new_logger opts = Inl e)
     = (falsy_string (opt_botToken opts) \<or> falsy_string (opt_chatId opts))"
  by (simp add: new_logger_def)

lemma new_logger_config:
  "new_logger opts = Inr L \<Longrightarrow>
   retryAttempts (config L) \<noteq> 0 \<and> rateLimitMax (config L) \<noteq> 0
   \<and> rateLimitWindow (config L) \<noteq> 0 \<and> deduplicateWindow (config L) \<noteq> 0
   \<and> errorCounts L = [] \<and> errorHashes L = []"
  by (auto simp: new_logger_def or_number_def split: if_splits option.splits)

text \<open>
  C7. The three entry points are meant to resolve to a delivery result or \<^verbatim>\<open>null\<close> and
  never to reject, and they do so whenever nothing throws a nullish value (the three lemmas
  above); the constructor throws exactly when the bot token or the chat id is missing. But
  each \<^verbatim>\<open>catch\<close> block reads \<^verbatim>\<open>err.message\<close> unguarded: when the \<^verbatim>\<open>errorFilter\<close>
  throws \<^verbatim>\<open>null\<close> or \<^verbatim>\<open>undefined\<close>, the handler itself throws a TypeError and
  \<^verbatim>\<open>sendError\<close> rejects.
\<close>

theorem sendError_rejects_on_nullish_throw:
  "fst (sendError (plain_env (\<lambda>k. Resolved (Data ''ok''))) 7 7 7 boom at_test
          (fresh (default_config\<lparr>errorFilter := Some (\<lambda>error ctx. Inl ThrownNullish)\<rparr>)) [])
   = Inl typeError"
  by code_simp

section \<open>Logger: custom messages\<close>

lemma sendMessage_extends:
  "\<exists>rest. snd (sendMessage nt message tr) = tr @ Post (truncateMessage message) # rest"
  by (simp add: sendMessage_def Let_def split: response.splits option.splits)

lemma retry_loop_extends:
  "\<exists>rest. snd (retry_loop (sendMessage nt message) retries i lastError tr) = tr @ rest"
proof (induction "sendMessage nt message" retries i lastError tr rule: retry_loop.induct)
  case (1 retries i lastError tr)
  show ?case
  proof (cases "of_nat i < retries")
    case False
    then show ?thesis by (subst retry_loop.simps) simp
  next
    case True
    obtain r tr' where s: "sendMessage nt message tr = (r, tr')"
      by (cases "sendMessage nt message tr")
    obtain rest where e: "tr' = tr @ rest"
      using sendMessage_extends[of nt message tr] s by auto
    show ?thesis
    proof (cases r)
      case (Inl e')
      with True s e "1.hyps"(1)[OF True s[symmetric] Inl] show ?thesis
        by (subst retry_loop.simps) (auto split: if_splits)
    next
      case (Inr v)
      with True s e "1.hyps"(2)[OF True s[symmetric] Inr] show ?thesis
        by (subst retry_loop.simps) (cases "truthy v"; auto)
    qed
  qed
qed

lemma retry_loop_first_post:
  assumes "of_nat i < retries"
  shows "\<exists>rest. snd (retry_loop (sendMessage nt message) retries i lastError tr)
                  = tr @ Post (truncateMessage message) # rest"
proof -
  obtain r tr' where s: "sendMessage nt message tr = (r, tr')"
    by (cases "sendMessage nt message tr")
  obtain rest where e: "tr' = tr @ Post (truncateMessage message) # rest"
    using sendMessage_extends[of nt message tr] s by auto
  show ?thesis
  proof (cases r)
    case (Inl e')
    with assms s e
      retry_loop_extends[of nt message retries "Suc i" "Some e'" "tr' @ [Sleep (2 ^ i * 1000)]"]
      retry_loop_extends[of nt message retries "Suc i" "Some e'" tr']
    show ?thesis
      by (subst retry_loop.simps) (auto split: if_splits)
  next
    case (Inr v)
    with assms s e retry_loop_extends[of nt message retries "Suc i" lastError tr']
    show ?thesis
      by (subst retry_loop.simps) (cases "truthy v"; auto)
  qed
qed

lemma sendCustomMessage_delegates:
  "messageFormat E message opts = Inr body \<Longrightarrow>
   sendCustomMessage E message opts L tr
     = (fst (sendMessageWithRetry (net E) body (retryAttempts (config L)) tr), L,
        snd (sendMessageWithRetry (net E) body (retryAttempts (config L)) tr))"
proof -
  assume f: "messageFormat E message opts = Inr body"
  obtain r tr' where s: "sendMessageWithRetry (net E) body (retryAttempts (config L)) tr = (r, tr')"
    by (cases "sendMessageWithRetry (net E) body (retryAttempts (config L)) tr")
  obtain v where v: "r = Inr v"
    using sendMessageWithRetry_never_throws[of "net E" body "retryAttempts (config L)" tr] s by auto
  show ?thesis by (simp add: sendCustomMessage_def f s v)
qed

lemma sendCustomMessage_once:
  assumes "0 < retryAttempts (config L)" and "messageFormat E message opts = Inr body"
  shows "\<not> isl (fst (sendCustomMessage E message opts L tr))
         \<and> fst (snd (sendCustomMessage E message opts L tr)) = L
         \<and> (\<exists>rest. snd (snd (sendCustomMessage E message opts L tr))
                     = tr @ Post (truncateMessage body) # rest)"
proof -
  have "\<exists>v. fst (sendMessageWithRetry (net E) body (retryAttempts (config L)) tr) = Inr v"
    by (rule sendMessageWithRetry_never_throws)
  moreover have "\<exists>rest. snd (sendMessageWithRetry (net E) body (retryAttempts (config L)) tr)
                     = tr @ Post (truncateMessage body) # rest"
    using retry_loop_first_post[of 0 "retryAttempts (config L)" "net E" body None tr] assms(1)
    by (simp add: sendMessageWithRetry_def)
  ultimately show ?thesis
    by (auto simp: sendCustomMessage_delegates[OF assms(2)])
qed

text \<open>
  C9, as the code has it. \<^verbatim>\<open>sendCustomMessage\<close> neither consults nor changes the rate
  limiter and the deduplicator: for a message the formatter renders, the call is exactly the
  run of the retry driver on the rendered text with the configured \<^verbatim>\<open>retryAttempts\<close>, and
  the logger is returned as it was. When \<^verbatim>\<open>retryAttempts\<close> is positive, each of \<open>N\<close>
  consecutive calls resolves and its first effect is the HTTP request that carries the
  (truncated) rendered text, whatever \<^verbatim>\<open>rateLimitMax\<close> is and whatever has been counted.
\<close>

theorem sendCustomMessage_bypasses_throttling:
  "0 < retryAttempts (config L) \<Longrightarrow>
   list_all (\<lambda>(message, opts). \<not> isl (messageFormat E message opts)) calls \<Longrightarrow>
   fst (snd (sendCustomMessages E calls L tr)) = L
   \<and> list_all2
        (\<lambda>(message, opts) (r, effects).
            \<not> isl r
            \<and> take 1 effects = [Post (truncateMessage (projr (messageFormat E message opts)))])
        calls (fst (sendCustomMessages E calls L tr))
   \<and> (\<not> isl (messageFormat E message opts) \<longrightarrow>
        sendCustomMessage E message opts L tr
          = (fst (sendMessageWithRetry (net E) (projr (messageFormat E message opts))
                    (retryAttempts (config L)) tr),
             L,
             snd (sendMessageWithRetry (net E) (projr (messageFormat E message opts))
                    (retryAttempts (config L)) tr)))"
proof -
  assume retries: "0 < retryAttempts (config L)"
  have seq: "fst (snd (sendCustomMessages E calls L tr)) = L
     \<and> list_all2
        (\<lambda>(message, opts) (r, effects).
            \<not> isl r
            \<and> take 1 effects = [Post (truncateMessage (projr (messageFormat E message opts)))])
        calls (fst (sendCustomMessages E calls L tr))"
    if "list_all (\<lambda>(message, opts). \<not> isl (messageFormat E message opts)) calls"
    using that
  proof (induction calls arbitrary: tr)
    case Nil
    then show ?case by simp
  next
    case (Cons c calls)
    obtain message opts where c: "c = (message, opts)" by (cases c)
    obtain body where f: "messageFormat E message opts = Inr body"
      using Cons.prems c by (cases "messageFormat E message opts") auto
    obtain r L' tr' where s: "sendCustomMessage E message opts L tr = (r, L', tr')"
      by (cases "sendCustomMessage E message opts L tr")
    obtain rest where one: "\<not> isl r" "L' = L" "tr' = tr @ Post (truncateMessage body) # rest"
      using sendCustomMessage_once[OF retries f, of tr] s by auto
    obtain rs L'' tr'' where ss: "sendCustomMessages E calls L tr' = (rs, L'', tr'')"
      by (cases "sendCustomMessages E calls L tr'")
    have ih: "L'' = L"
      "list_all2
        (\<lambda>(message, opts) (r, effects).
            \<not> isl r
            \<and> take 1 effects = [Post (truncateMessage (projr (messageFormat E message opts)))])
        calls rs"
      using Cons.IH[of tr'] Cons.prems ss by auto
    have effects: "drop (length tr) tr' = Post (truncateMessage body) # rest"
      using one(3) by simp
    show ?case
      using one(1,2) ih effects by (simp add: c s ss f)
  qed
  have single: "sendCustomMessage E message opts L tr
          = (fst (sendMessageWithRetry (net E) (projr (messageFormat E message opts))
                    (retryAttempts (config L)) tr),
             L,
             snd (sendMessageWithRetry (net E) (projr (messageFormat E message opts))
                    (retryAttempts (config L)) tr))"
    if "\<not> isl (messageFormat E message opts)"
  proof -
    have f: "messageFormat E message opts = Inr (projr (messageFormat E message opts))"
      using that by simp
    show ?thesis by (rule sendCustomMessage_delegates[OF f])
  qed
  show "list_all (\<lambda>(message, opts). \<not> isl (messageFormat E message opts)) calls \<Longrightarrow> ?thesis"
    using seq single by blast
qed

theorem sendCustomMessage_bypasses_throttling_witness:
  "fst (snd (sendCustomMessages (plain_env (\<lambda>k. Resolved (Data ''ok'')))
               (replicate 20 (''ping'', ()))
               ((fresh (default_config\<lparr>rateLimitMax := 1\<rparr>))\<lparr>errorCounts := [(0, 1)]\<rparr>) []))
     = (fresh (default_config\<lparr>rateLimitMax := 1\<rparr>))\<lparr>errorCounts := [(0, 1)]\<rparr>
   \<and> list_all2
        (\<lambda>(message, opts) (r, effects).
            \<not> isl r \<and> take 1 effects = [Post (truncateMessage message)])
        (replicate 20 (''ping'', ()))
        (fst (sendCustomMessages (plain_env (\<lambda>k. Resolved (Data ''ok'')))
               (replicate 20 (''ping'', ()))
               ((fresh (default_config\<lparr>rateLimitMax := 1\<rparr>))\<lparr>errorCounts := [(0, 1)]\<rparr>) []))
   \<and> sendCustomMessage (plain_env (\<lambda>k. Resolved (Data ''ok''))) ''ping'' ()
        ((fresh (default_config\<lparr>rateLimitMax := 1\<rparr>))\<lparr>errorCounts := [(0, 1)]\<rparr>) []
     = (Inr (Some (Data ''ok'')),
        (fresh (default_config\<lparr>rateLimitMax := 1\<rparr>))\<lparr>errorCounts := [(0, 1)]\<rparr>,
        [Post ''ping''])"
proof -
  have retries: "0 < retryAttempts
      (config ((fresh (default_config\<lparr>rateLimitMax := 1\<rparr>))\<lparr>errorCounts := [(0, 1)]\<rparr>))"
    by (simp add: fresh_def default_config_def)
  have formats: "list_all (\<lambda>(message, opts).
      \<not> isl (messageFormat (plain_env (\<lambda>k. Resolved (Data ''ok''))) message opts))
      (replicate 20 (''ping'', ()))"
    by (simp add: list_all_iff plain_env_def)
  have run: "sendMessageWithRetry (\<lambda>k. Resolved (Data ''ok'')) ''ping'' 3 []
               = (Inr (Some (Data ''ok'')), [Post ''ping''])"
    by code_simp
  show ?thesis
    using sendCustomMessage_bypasses_throttling
            [OF retries formats, where tr = "[]" and message = "''ping''" and opts = "()"]
    by (simp add: plain_env_def run fresh_def default_config_def)
qed

text \<open>
  Without a positive \<^verbatim>\<open>retryAttempts\<close> no call reaches the transport. The constructor
  keeps \<^verbatim>\<open>retryAttempts: -1\<close> (only a missing value and 0 are replaced by 3); the loop of
  the retry driver then never runs, and \<^verbatim>\<open>sendCustomMessage\<close> returns \<^verbatim>\<open>null\<close> without
  a request.
\<close>

theorem sendCustomMessage_no_attempt_counterexample:
  "new_logger \<lparr> opt_botToken = Some ''token'', opt_chatId = Some ''chat'', opt_errorFilter = None,
                 opt_rateLimitWindow = None, opt_rateLimitMax = Some 1, opt_deduplicate = None,
                 opt_deduplicateWindow = None, opt_retryAttempts = Some (- 1) \<rparr>
     = Inr (fresh (default_config\<lparr>rateLimitMax := 1, retryAttempts := - 1\<rparr>))
   \<and> sendCustomMessage (plain_env (\<lambda>k. Resolved (Data ''ok''))) ''ping'' ()
        (fresh (default_config\<lparr>rateLimitMax := 1, retryAttempts := - 1\<rparr>)) []
     = (Inr None, fresh (default_config\<lparr>rateLimitMax := 1, retryAttempts := - 1\<rparr>),
        [ConsoleError ''Failed to send Telegram message after retries:'' None])
   \<and> posts (snd (snd (sendCustomMessage (plain_env (\<lambda>k. Resolved (Data ''ok''))) ''ping'' ()
        (fresh (default_config\<lparr>rateLimitMax := 1, retryAttempts := - 1\<rparr>)) []))) = 0"
  by (simp add: new_logger_def falsy_string_def or_number_def fresh_def default_config_def
                sendCustomMessage_def sendMessageWithRetry_def retry_loop.simps plain_env_def)

section \<open>Deduplicator\<close>

lemma recordError_lookup:
  "map_of (errorHashes (recordError now h L)) = (map_of (errorHashes L))(h \<mapsto> now)
   \<and> config (recordError now h L) = config L
   \<and> errorCounts (recordError now h L) = errorCounts L"
  by (simp add: recordError_def AList.update_conv')

lemma isDuplicate_recorded:
  "map_of (errorHashes L) h = Some lastSeen \<Longrightarrow> lastSeen \<noteq> 0 \<Longrightarrow>
   isDuplicate now h L = (of_int (now - lastSeen) < deduplicateWindow (config L))"
  by (simp add: isDuplicate_def)

lemma isDuplicate_unrecorded:
  "map_of (errorHashes L) h = None \<Longrightarrow> \<not> isDuplicate now h L"
  by (simp add: isDuplicate_def)

lemma sendError_state_before_delivery:
  assumes "deduplicate (config L)"
    and "(case errorFilter (config L) of None \<Rightarrow> Inr True | Some f \<Rightarrow> f error ctx) = Inr True"
    and "fst (checkRateLimit t_rate L)"
    and "\<not> isDuplicate t_dup (getErrorHash error ctx) (snd (checkRateLimit t_rate L))"
  shows "fst (snd (sendError E t_rate t_dup t_rec error ctx L tr))
           = recordError t_rec (getErrorHash error ctx) (snd (checkRateLimit t_rate L))"
proof -
  obtain L1 where c: "checkRateLimit t_rate L = (True, L1)"
    using assms(3) by (cases "checkRateLimit t_rate L") auto
  have d: "deduplicate (config L1)"
    using checkRateLimit_frame[of t_rate L] c assms(1) by simp
  show ?thesis
    using assms(2,4) c d
    by (auto simp: sendError_def sendError_try_def Let_def split: sum.splits prod.splits)
qed

lemma sendError_suppresses_recorded:
  assumes "deduplicate (config L)"
    and "map_of (errorHashes L) (getErrorHash error ctx) = Some lastSeen"
    and "lastSeen \<noteq> 0"
    and "of_int (t_dup - lastSeen) < deduplicateWindow (config L)"
    and "(case errorFilter (config L) of None \<Rightarrow> Inr True | Some f \<Rightarrow> f error ctx) = Inr True"
  shows "sendError E t_rate t_dup t_rec error ctx L tr
           = (Inr None, snd (checkRateLimit t_rate L),
              tr @ [ConsoleWarn
                      (if fst (checkRateLimit t_rate L)
                       then ''Telegram error logger: Duplicate error detected, skipping''
                       else ''Telegram error logger: Rate limit exceeded, skipping error'')])"
proof -
  obtain ok L1 where c: "checkRateLimit t_rate L = (ok, L1)"
    by (cases "checkRateLimit t_rate L")
  have f: "config L1 = config L" "errorHashes L1 = errorHashes L"
    using checkRateLimit_frame[of t_rate L] c by simp_all
  have dup: "isDuplicate t_dup (getErrorHash error ctx) L1"
    using isDuplicate_recorded[of L1 "getErrorHash error ctx" lastSeen t_dup] assms(2,3,4) f
    by simp
  show ?thesis
    using assms(1,5) c f dup
    by (auto simp: sendError_def sendError_try_def Let_def)
qed


text \<open>
  C4. \<^verbatim>\<open>Date.now()\<close> is never 0 on a running system. For an identity recorded at a clock
  reading \<open>t\<close> other than 0, the second submission at time \<open>now\<close> is a duplicate exactly
  when \<open>now - t\<close> is strictly less than \<^verbatim>\<open>deduplicateWindow\<close>. In \<^verbatim>\<open>sendError\<close> (with
  deduplication enabled, past the filter and the rate limiter) a duplicate is dropped with
  a warning and its record keeps the timestamp \<open>t\<close>; otherwise the record is overwritten
  with the current clock reading. \<^verbatim>\<open>recordError\<close> changes nothing but that record.
\<close>

theorem deduplicator_admit:
  "t \<noteq> 0 \<Longrightarrow>
   isDuplicate now h (recordError t h L) = (of_int (now - t) < deduplicateWindow (config L))
   \<and> map_of (errorHashes (recordError t h L)) = (map_of (errorHashes L))(h \<mapsto> t)
   \<and> config (recordError t h L) = config L
   \<and> errorCounts (recordError t h L) = errorCounts L
   \<and> (deduplicate (config L)
        \<and> (case errorFilter (config L) of None \<Rightarrow> Inr True | Some f \<Rightarrow> f error ctx) = Inr True
        \<and> fst (checkRateLimit t_rate (recordError t (getErrorHash error ctx) L))
      \<longrightarrow>
        (if of_int (t_dup - t) < deduplicateWindow (config L)
         then sendError E t_rate t_dup t_rec error ctx
                (recordError t (getErrorHash error ctx) L) tr
              = (Inr None,
                 snd (checkRateLimit t_rate (recordError t (getErrorHash error ctx) L)),
                 tr @ [ConsoleWarn ''Telegram error logger: Duplicate error detected, skipping''])
              \<and> map_of (errorHashes
                    (snd (checkRateLimit t_rate (recordError t (getErrorHash error ctx) L))))
                    (getErrorHash error ctx) = Some t
         else fst (snd (sendError E t_rate t_dup t_rec error ctx
                          (recordError t (getErrorHash error ctx) L) tr))
              = recordError t_rec (getErrorHash error ctx)
                  (snd (checkRateLimit t_rate (recordError t (getErrorHash error ctx) L)))
              \<and> map_of (errorHashes
                    (fst (snd (sendError E t_rate t_dup t_rec error ctx
                                 (recordError t (getErrorHash error ctx) L) tr))))
                    (getErrorHash error ctx) = Some t_rec))"
proof -
  assume t: "t \<noteq> 0"
  let ?H = "getErrorHash error ctx"
  let ?L1 = "recordError t ?H L"
  have rec: "map_of (errorHashes (recordError t h L)) = (map_of (errorHashes L))(h \<mapsto> t)"
    "config (recordError t h L) = config L" "errorCounts (recordError t h L) = errorCounts L"
    using recordError_lookup[of t h L] by simp_all
  have dup: "isDuplicate now h (recordError t h L)
               = (of_int (now - t) < deduplicateWindow (config L))"
    using isDuplicate_recorded[of "recordError t h L" h t now] t rec by simp
  have rec1: "map_of (errorHashes ?L1) ?H = Some t" "config ?L1 = config L"
    using recordError_lookup[of t ?H L] by simp_all
  have frame: "errorHashes (snd (checkRateLimit t_rate ?L1)) = errorHashes ?L1"
    "config (snd (checkRateLimit t_rate ?L1)) = config L"
    using checkRateLimit_frame[of t_rate ?L1] rec1 by simp_all
  have within: "sendError E t_rate t_dup t_rec error ctx ?L1 tr
              = (Inr None, snd (checkRateLimit t_rate ?L1),
                 tr @ [ConsoleWarn ''Telegram error logger: Duplicate error detected, skipping''])
              \<and> map_of (errorHashes (snd (checkRateLimit t_rate ?L1))) ?H = Some t"
    if "deduplicate (config L)"
       "(case errorFilter (config L) of None \<Rightarrow> Inr True | Some f \<Rightarrow> f error ctx) = Inr True"
       "fst (checkRateLimit t_rate ?L1)" "of_int (t_dup - t) < deduplicateWindow (config L)"
    using sendError_suppresses_recorded[of ?L1 error ctx t t_dup E t_rate t_rec tr]
          that t rec1 frame by simp
  have beyond: "fst (snd (sendError E t_rate t_dup t_rec error ctx ?L1 tr))
              = recordError t_rec ?H (snd (checkRateLimit t_rate ?L1))
              \<and> map_of (errorHashes (fst (snd (sendError E t_rate t_dup t_rec error ctx ?L1 tr))))
                    ?H = Some t_rec"
    if "deduplicate (config L)"
       "(case errorFilter (config L) of None \<Rightarrow> Inr True | Some f \<Rightarrow> f error ctx) = Inr True"
       "fst (checkRateLimit t_rate ?L1)" "\<not> of_int (t_dup - t) < deduplicateWindow (config L)"
  proof -
    have "\<not> isDuplicate t_dup ?H (snd (checkRateLimit t_rate ?L1))"
      using isDuplicate_recorded[of "snd (checkRateLimit t_rate ?L1)" ?H t t_dup]
            t rec1 frame that(4) by simp
    then have "fst (snd (sendError E t_rate t_dup t_rec error ctx ?L1 tr))
              = recordError t_rec ?H (snd (checkRateLimit t_rate ?L1))"
      using sendError_state_before_delivery[of ?L1 error ctx t_rate t_dup E t_rec tr]
            that rec1 by simp
    then show ?thesis
      using recordError_lookup[of t_rec ?H "snd (checkRateLimit t_rate ?L1)"] by simp
  qed
  show ?thesis
  proof (cases "of_int (t_dup - t) < deduplicateWindow (config L)")
    case True
    show ?thesis
      unfolding if_P[OF True] using dup rec within True by blast
  next
    case False
    show ?thesis
      unfolding if_not_P[OF False] using dup rec beyond False by blast
  qed
qed

theorem deduplicator_admit_witness:
  "isDuplicate 1700000000100 ''Error:boom:/test''
      (recordError 1700000000000 ''Error:boom:/test''
         (fresh (default_config\<lparr>deduplicate := True, deduplicateWindow := 5000\<rparr>)))
   \<and> \<not> isDuplicate 1700000005000 ''Error:boom:/test''
      (recordError 1700000000000 ''Error:boom:/test''
         (fresh (default_config\<lparr>deduplicate := True, deduplicateWindow := 5000\<rparr>)))
   \<and> sendError (plain_env (\<lambda>k. Resolved (Data ''ok'')))
        1700000000100 1700000000100 1700000000100 boom at_test
        (recordError 1700000000000 (getErrorHash boom at_test)
           (fresh (default_config\<lparr>deduplicate := True, deduplicateWindow := 5000\<rparr>))) []
     = (Inr None,
        snd (checkRateLimit 1700000000100
          (recordError 1700000000000 (getErrorHash boom at_test)
             (fresh (default_config\<lparr>deduplicate := True, deduplicateWindow := 5000\<rparr>)))),
        [ConsoleWarn ''Telegram error logger: Duplicate error detected, skipping''])
   \<and> map_of (errorHashes (fst (snd
        (sendError (plain_env (\<lambda>k. Resolved (Data ''ok'')))
          1700000005000 1700000005000 1700000005000 boom at_test
          (recordError 1700000000000 (getErrorHash boom at_test)
             (fresh (default_config\<lparr>deduplicate := True, deduplicateWindow := 5000\<rparr>))) []))))
        (getErrorHash boom at_test)
     = Some 1700000005000"
proof -
  have t: "(1700000000000 :: int) \<noteq> 0" by simp
  show ?thesis
    using deduplicator_admit
            [OF t, where now = 1700000000100 and h = "''Error:boom:/test''"
               and L = "fresh (default_config\<lparr>deduplicate := True, deduplicateWindow := 5000\<rparr>)"
               and error = boom and ctx = at_test and t_rate = 1700000000100
               and t_dup = 1700000000100 and t_rec = 1700000000100
               and E = "plain_env (\<lambda>k. Resolved (Data ''ok''))" and tr = "[]"]
          deduplicator_admit
            [OF t, where now = 1700000005000 and h = "''Error:boom:/test''"
               and L = "fresh (default_config\<lparr>deduplicate := True, deduplicateWindow := 5000\<rparr>)"
               and error = boom and ctx = at_test and t_rate = 1700000005000
               and t_dup = 1700000005000 and t_rec = 1700000005000
               and E = "plain_env (\<lambda>k. Resolved (Data ''ok''))" and tr = "[]"]
    by (simp add: fresh_def default_config_def recordError_def checkRateLimit_def evict_def
                  sum_counts_def Let_def)
qed

text \<open>
  The reading 0 is the one exception: \<^verbatim>\<open>if (!lastSeen) return false\<close> takes a record
  stamped 0 for a missing one. Only a clock parked on the epoch produces such a record.
\<close>

lemma isDuplicate_at_clock_zero:
  "isDuplicate 100 ''Error:boom:/test'' (recordError 0 ''Error:boom:/test''
       (fresh (default_config\<lparr>deduplicate := True, deduplicateWindow := 5000\<rparr>))) = False"
  by code_simp

section \<open>Logger: state written before delivery\<close>



text \<open>
  With the clock parked on 0 at the first call the record is stamped 0, and the identical
  event 100 ms later makes three more requests (see \<open>isDuplicate_at_clock_zero\<close>).
\<close>

lemma sendError_at_clock_zero:
  "posts (snd (snd
        (sendError (plain_env (\<lambda>k. Rejected (Thrown ''Network error''))) 100 100 100 boom at_test
          (fst (snd
            (sendError (plain_env (\<lambda>k. Rejected (Thrown ''Network error''))) 0 0 0 boom at_test
              (fresh (default_config\<lparr>deduplicate := True, deduplicateWindow := 5000\<rparr>)) [])))
          [])))
     = 3"
  by code_simp

end
